theory Spec2Isabelle
  imports Complex_Main "HOL-Library.Word"
begin

unbundle bit_operations_syntax

section \<open>Common Python notions\<close>

text \<open>
  Python's unbounded integers are \<open>int\<close>; its shifts and bitwise connectives are
  \<open>push_bit\<close>, \<open>drop_bit\<close>, \<open>AND\<close> and \<open>OR\<close> on \<open>int\<close> (two's complement of
  unbounded width, as in Python).  A \<open>bytes\<close> object is a list of 8-bit words; reading an
  element gives back an \<open>int\<close> through \<open>uint\<close>.  Python floats are modelled as real
  numbers: rounding, overflow, infinities and NaN are outside the model.
\<close>

datatype error = ValueError | StructError | ConnectionError | TypeError

type_synonym byte = "8 word"

text \<open>\<open>bytes([...])\<close>: every element must be in \<open>range(0, 256)\<close>, else \<open>ValueError\<close>.\<close>

definition bytes_of :: "int list \<Rightarrow> error + byte list" where
  "bytes_of xs =
     (if list_all (\<lambda>x. 0 \<le> x \<and> x < 256) xs then Inr (map word_of_int xs)
      else Inl ValueError)"

text \<open>\<open>struct.pack('>H', v)\<close>: two bytes, big endian; \<open>struct.error\<close> outside 0..65535.\<close>

definition struct_pack_H :: "int \<Rightarrow> error + byte list" where
  "struct_pack_H v =
     (if 0 \<le> v \<and> v \<le> 65535 then Inr [word_of_int (v div 256), word_of_int (v mod 256)]
      else Inl StructError)"

text \<open>The slice \<open>msg[1:3]\<close>.\<close>

definition slice_1_3 :: "'a list \<Rightarrow> 'a list" where
  "slice_1_3 msg = take 2 (drop 1 msg)"

section \<open>opentherm.py: the protocol codec\<close>

definition READ_DATA :: int where "READ_DATA = 0"
definition WRITE_DATA :: int where "WRITE_DATA = 1"
definition INVALID_DATA :: int where "INVALID_DATA = 2"
definition RESERVED :: int where "RESERVED = 3"

definition STATUS :: int where "STATUS = 0"
definition TSET :: int where "TSET = 1"
definition TBOILER :: int where "TBOILER = 25"

definition calculate_checksum :: "byte list \<Rightarrow> int" where
  "calculate_checksum data = sum_list (map uint data) AND 0xFF"

definition create_message :: "int \<Rightarrow> int \<Rightarrow> int \<Rightarrow> error + byte list" where
  "create_message msg_type data_id data_value =
     (let msb = push_bit 6 msg_type OR (drop_bit 8 data_id AND 0x3F);
          lsb = data_id AND 0xFF
      in case struct_pack_H data_value of
           Inl e \<Rightarrow> Inl e
         | Inr data_bytes \<Rightarrow>
             (let msb_data = push_bit 8 msb OR uint (data_bytes ! 0);
                  lsb_data = push_bit 8 lsb OR uint (data_bytes ! 1)
              in case bytes_of [0x00, msb_data, lsb_data, 0x00] of
                   Inl e \<Rightarrow> Inl e
                 | Inr msg \<Rightarrow>
                     (let checksum = calculate_checksum (slice_1_3 msg)
                      in bytes_of [0x00, msb_data, lsb_data, checksum])))"

definition parse_message :: "byte list \<Rightarrow> (int \<times> int \<times> int) option" where
  "parse_message msg =
     (if length msg \<noteq> 4 then None
      else let checksum = calculate_checksum (slice_1_3 msg)
           in if checksum \<noteq> uint (msg ! 3) then None
              else let msb = uint (msg ! 1);
                       lsb = uint (msg ! 2);
                       msg_type = drop_bit 6 msb AND 0x03;
                       data_id = push_bit 8 (msb AND 0x3F) OR lsb;
                       data_value = push_bit 12 (msb AND 0x0F) OR push_bit 4 (lsb AND 0xFF)
                   in Some (msg_type, data_id, data_value))"

text \<open>
  The conversions around the codec: \<open>int(temperature * 10) & 0xFFFF\<close> on the request side
  (\<open>int\<close> truncates towards zero) and \<open>(data_value >> 4) / 10.0\<close> on the reply side.
\<close>

definition py_int :: "real \<Rightarrow> int" where
  "py_int x = (if 0 \<le> x then \<lfloor>x\<rfloor> else \<lceil>x\<rceil>)"

definition temp_value :: "real \<Rightarrow> int" where
  "temp_value temperature = py_int (temperature * 10) AND 0xFFFF"

definition recover_temp :: "int \<Rightarrow> real" where
  "recover_temp data_value = real_of_int (drop_bit 4 data_value) / 10.0"


section \<open>opentherm.py: the serial link\<close>

text \<open>
  The serial port: whether it is open, the frames written so far, and the bytes that reach
  the host before the read timeout expires.  \<open>serial.read(n)\<close> hands over at most \<open>n\<close> of
  them.  The settle delay \<open>time.sleep(0.1)\<close> has no effect on this state.
\<close>

record Serial =
  is_open :: bool
  written :: "byte list list"
  incoming :: "byte list"

definition serial_write :: "byte list \<Rightarrow> Serial \<Rightarrow> Serial" where
  "serial_write msg s = s\<lparr>written := written s @ [msg]\<rparr>"

definition serial_read :: "nat \<Rightarrow> Serial \<Rightarrow> byte list \<times> Serial" where
  "serial_read n s = (take n (incoming s), s\<lparr>incoming := drop n (incoming s)\<rparr>)"

record OpenThermProtocol =
  serial_port :: string
  baudrate :: int
  serial :: "Serial option"

text \<open>
  A method that can raise returns its outcome (\<open>Inl\<close> the exception) together with the
  object as the call leaves it.
\<close>

definition set_target_temperature ::
  "real \<Rightarrow> OpenThermProtocol \<Rightarrow> (error + bool) \<times> OpenThermProtocol" where
  "set_target_temperature temperature self =
     (case serial self of
        None \<Rightarrow> (Inl ConnectionError, self)
      | Some s \<Rightarrow>
          if \<not> is_open s then (Inl ConnectionError, self)
          else case create_message WRITE_DATA TSET (temp_value temperature) of
                 Inl e \<Rightarrow> (Inl e, self)
               | Inr msg \<Rightarrow>
                   (let s1 = serial_write msg s;
                        (response, s2) = serial_read 4 s1;
                        self' = self\<lparr>serial := Some s2\<rparr>
                    in if response \<noteq> [] then
                         (case parse_message response of
                            Some parsed \<Rightarrow> (Inr True, self')
                          | None \<Rightarrow> (Inr False, self'))
                       else (Inr False, self')))"

definition get_boiler_temperature ::
  "OpenThermProtocol \<Rightarrow> (error + real option) \<times> OpenThermProtocol" where
  "get_boiler_temperature self =
     (case serial self of
        None \<Rightarrow> (Inl ConnectionError, self)
      | Some s \<Rightarrow>
          if \<not> is_open s then (Inl ConnectionError, self)
          else case create_message READ_DATA TBOILER 0 of
                 Inl e \<Rightarrow> (Inl e, self)
               | Inr msg \<Rightarrow>
                   (let s1 = serial_write msg s;
                        (response, s2) = serial_read 4 s1;
                        self' = self\<lparr>serial := Some s2\<rparr>
                    in if response \<noteq> [] then
                         (case parse_message response of
                            Some (msg_type, data_id, data_value) \<Rightarrow>
                              if data_id = TBOILER
                              then (Inr (Some (recover_temp data_value)), self')
                              else (Inr None, self')
                          | None \<Rightarrow> (Inr None, self'))
                       else (Inr None, self')))"

record OpenThermController =
  protocol :: OpenThermProtocol
  connected :: bool

definition set_control_temperature ::
  "real \<Rightarrow> real \<Rightarrow> OpenThermController \<Rightarrow> (error + bool) \<times> OpenThermController" where
  "set_control_temperature target_temp current_temp self =
     (if \<not> connected self then (Inr False, self)
      else let (r, p) = set_target_temperature target_temp (protocol self)
           in (r, self\<lparr>protocol := p\<rparr>))"

section \<open>pid\_controller.py\<close>

text \<open>
  \<open>time.time()\<close> is an input of \<open>update\<close>: the reading of the clock at the call.
\<close>

record PIDController =
  kp :: real
  ki :: real
  kd :: real
  setpoint :: real
  output_limits :: "real \<times> real"
  last_time :: "real option"
  last_error :: "real option"
  integral :: real

definition PIDController_init ::
  "real \<Rightarrow> real \<Rightarrow> real \<Rightarrow> real \<Rightarrow> real \<times> real \<Rightarrow> PIDController" where
  "PIDController_init p i d sp limits =
     \<lparr>kp = p, ki = i, kd = d, setpoint = sp, output_limits = limits,
      last_time = None, last_error = None, integral = 0.0\<rparr>"

definition set_setpoint :: "real \<Rightarrow> PIDController \<Rightarrow> PIDController" where
  "set_setpoint sp self = self\<lparr>setpoint := sp, integral := 0.0\<rparr>"

definition clamp_output :: "PIDController \<Rightarrow> real \<Rightarrow> real" where
  "clamp_output self output =
     max (fst (output_limits self)) (min (snd (output_limits self)) output)"

text \<open>
  On the \<open>dt > 0\<close> path \<open>error - self._last_error\<close> raises \<open>TypeError\<close> if the last error
  is still \<open>None\<close>; the integral has been updated by then.
\<close>

definition update :: "real \<Rightarrow> real \<Rightarrow> PIDController \<Rightarrow> (error + real) \<times> PIDController" where
  "update current_time current_value self =
     (let error = setpoint self - current_value
      in case last_time self of
           None \<Rightarrow>
             (Inr (clamp_output self (kp self * error)),
              self\<lparr>last_time := Some current_time, last_error := Some error\<rparr>)
         | Some lt \<Rightarrow>
             (let dt = current_time - lt
              in if dt \<le> 0 then (Inr (clamp_output self (kp self * error)), self)
                 else let p_term = kp self * error;
                          self1 = self\<lparr>integral := integral self + error * dt\<rparr>;
                          i_term = ki self1 * integral self1
                      in case last_error self1 of
                           None \<Rightarrow> (Inl TypeError, self1)
                         | Some le \<Rightarrow>
                             (let error_delta = error - le;
                                  d_term = kd self1 * (error_delta / dt);
                                  output = p_term + i_term + d_term;
                                  self2 = self1\<lparr>last_time := Some current_time,
                                                last_error := Some error\<rparr>
                              in (Inr (clamp_output self2 output), self2))))"

definition reset :: "PIDController \<Rightarrow> PIDController" where
  "reset self = self\<lparr>last_time := None, last_error := None, integral := 0.0\<rparr>"

definition set_tunings :: "real \<Rightarrow> real \<Rightarrow> real \<Rightarrow> PIDController \<Rightarrow> PIDController" where
  "set_tunings p i d self = self\<lparr>kp := p, ki := i, kd := d\<rparr>"

text \<open>
  A run of \<open>update\<close> calls on one controller, each with its clock reading and measurement;
  the outputs are collected until a call raises.
\<close>

fun updates :: "(real \<times> real) list \<Rightarrow> PIDController \<Rightarrow> (error + real list) \<times> PIDController" where
  "updates [] self = (Inr [], self)"
| "updates ((now, x) # calls) self =
     (case update now x self of
        (Inl e, self') \<Rightarrow> (Inl e, self')
      | (Inr y, self') \<Rightarrow>
          (case updates calls self' of
             (Inl e, self'') \<Rightarrow> (Inl e, self'')
           | (Inr ys, self'') \<Rightarrow> (Inr (y # ys), self'')))"

text \<open>
  The two optional fields are set together by every method, so a controller built by the
  constructor and used through its methods never has a timestamp without a last error.
\<close>

definition pid_ok :: "PIDController \<Rightarrow> bool" where
  "pid_ok self = (last_time self = None \<or> last_error self \<noteq> None)"

section \<open>room\_manager.py\<close>

text \<open>
  The valve's own gain fields are named \<open>valve_kp\<close>, \<open>valve_ki\<close>, \<open>valve_kd\<close> and the
  names of valve and room \<open>valve_name\<close> and \<open>room_name\<close>, to keep them apart from the
  controller's fields.  \<open>HRVValve_init\<close> is the dataclass constructor followed by
  \<open>__post_init__\<close>.
\<close>

record HRVValve =
  valve_name :: string
  valve_entity :: string
  valve_kp :: real
  valve_ki :: real
  valve_kd :: real
  current_position :: real
  pid_controller :: PIDController

definition HRVValve_init :: "string \<Rightarrow> string \<Rightarrow> real \<Rightarrow> real \<Rightarrow> real \<Rightarrow> HRVValve" where
  "HRVValve_init n e p i d =
     \<lparr>valve_name = n, valve_entity = e, valve_kp = p, valve_ki = i, valve_kd = d,
      current_position = 0.0,
      pid_controller = PIDController_init p i d 0.0 (0.0, 100.0)\<rparr>"

record Room =
  room_name :: string
  target_temp :: real
  current_temp_sensor :: string
  hrv_entity :: string
  hrv_valves :: "HRVValve list"
  current_temp :: "real option"

definition get_temperature_difference :: "Room \<Rightarrow> real" where
  "get_temperature_difference self =
     (case current_temp self of None \<Rightarrow> 0.0 | Some c \<Rightarrow> \<bar>target_temp self - c\<bar>)"

definition needs_heating :: "Room \<Rightarrow> bool" where
  "needs_heating self =
     (case current_temp self of None \<Rightarrow> False | Some c \<Rightarrow> c < target_temp self)"

text \<open>
  Python's \<open>max(xs, key=f)\<close> on a non-empty list scans from the left and replaces the best
  element so far only by one with a strictly greater key, so the first maximal element is
  returned.
\<close>

fun max_key_from :: "('a \<Rightarrow> real) \<Rightarrow> 'a \<Rightarrow> 'a list \<Rightarrow> 'a" where
  "max_key_from f best [] = best"
| "max_key_from f best (x # xs) =
     (if f x > f best then max_key_from f x xs else max_key_from f best xs)"

record RoomManager =
  rooms :: "Room list"

definition get_room_with_highest_difference :: "RoomManager \<Rightarrow> Room option" where
  "get_room_with_highest_difference self =
     (if rooms self = [] then None
      else let rooms_needing_heat =
                 filter (\<lambda>room. needs_heating room \<and> current_temp room \<noteq> None) (rooms self)
           in case rooms_needing_heat of
                [] \<Rightarrow> None
              | r # rs \<Rightarrow> Some (max_key_from get_temperature_difference r rs))"

definition get_control_temperatures :: "RoomManager \<Rightarrow> (real \<times> real) option" where
  "get_control_temperatures self =
     (case get_room_with_highest_difference self of
        None \<Rightarrow> None
      | Some room \<Rightarrow>
          (case current_temp room of
             None \<Rightarrow> None
           | Some c \<Rightarrow> Some (target_temp room, c)))"

text \<open>
  The loop of \<open>calculate_hrv_positions\<close> over the valves of a room.  The clock is a
  sequence of readings, \<open>clock k\<close> being what the \<open>k\<close>-th call of \<open>time.time()\<close> returns;
  the loop returns the exception that stopped it, if any, the valves as they are then and
  the number of readings taken.
\<close>

fun hrv_loop ::
  "(nat \<Rightarrow> real) \<Rightarrow> real \<Rightarrow> HRVValve list \<Rightarrow> nat \<Rightarrow> error option \<times> HRVValve list \<times> nat" where
  "hrv_loop clock error [] k = (None, [], k)"
| "hrv_loop clock error (valve # rest) k =
     (let pid1 = set_setpoint 0.0 (pid_controller valve)
      in case update (clock k) (- error) pid1 of
           (Inl e, pid2) \<Rightarrow> (Some e, valve\<lparr>pid_controller := pid2\<rparr> # rest, Suc k)
         | (Inr valve_position, pid2) \<Rightarrow>
             (let valve_position = max 0.0 (min 100.0 valve_position);
                  valve' = valve\<lparr>pid_controller := pid2, current_position := valve_position\<rparr>;
                  (r, rest', k') = hrv_loop clock error rest (Suc k)
              in (r, valve' # rest', k')))"

definition calculate_hrv_positions ::
  "(nat \<Rightarrow> real) \<Rightarrow> Room \<Rightarrow> nat \<Rightarrow> error option \<times> Room \<times> nat" where
  "calculate_hrv_positions clock room k =
     (case current_temp room of
        None \<Rightarrow> (None, room, k)
      | Some c \<Rightarrow>
          (let error = target_temp room - c;
               (r, valves, k') = hrv_loop clock error (hrv_valves room) k
           in (r, room\<lparr>hrv_valves := valves\<rparr>, k')))"

text \<open>
  Any number of control cycles on one room: in each cycle a new measurement may arrive
  (\<open>room.current_temp = temperature\<close>) and the valve positions are calculated.
\<close>

fun cycles ::
  "(nat \<Rightarrow> real) \<Rightarrow> real option list \<Rightarrow> Room \<Rightarrow> nat \<Rightarrow> error option \<times> Room \<times> nat" where
  "cycles clock [] room k = (None, room, k)"
| "cycles clock (m # ms) room k =
     (let room1 = (case m of None \<Rightarrow> room | Some t \<Rightarrow> room\<lparr>current_temp := Some t\<rparr>)
      in case calculate_hrv_positions clock room1 k of
           (Some e, room2, k') \<Rightarrow> (Some e, room2, k')
         | (None, room2, k') \<Rightarrow> cycles clock ms room2 k')"

definition valve_ok :: "HRVValve \<Rightarrow> bool" where
  "valve_ok v = (0 \<le> current_position v \<and> current_position v \<le> 100 \<and> pid_ok (pid_controller v))"


section \<open>Properties of the codec\<close>

lemma and_255_take_bit: "(k :: int) AND 0xFF = take_bit 8 k"
  by (simp add: take_bit_eq_mask mask_eq_exp_minus_1)

lemma uint_byte_and_255: "uint (b :: byte) AND 0xFF = uint b"
proof -
  have "uint b < 2 ^ 8" using uint_bounded [of b] by simp
  then have "take_bit 8 (uint b) = uint b" by (simp add: take_bit_int_eq_self)
  then show ?thesis by (simp only: and_255_take_bit)
qed

lemma length4_cases: "length msg = 4 \<Longrightarrow> \<exists>a b c d. msg = [a, b, c, d]"
  by (auto simp add: length_Suc_conv numeral_Bit0 numeral_eq_Suc)

lemma checksum_slice:
  assumes "length msg = 4"
  shows "calculate_checksum (slice_1_3 msg) = (uint (msg ! 1) + uint (msg ! 2)) AND 0xFF"
proof -
  from assms obtain a b c d where "msg = [a, b, c, d]"
    using length4_cases by blast
  then show ?thesis by (simp add: calculate_checksum_def slice_1_3_def)
qed

lemma parse_message_None_iff:
  "parse_message msg = None \<longleftrightarrow>
      length msg \<noteq> 4 \<or> uint (msg ! 3) \<noteq> (uint (msg ! 1) + uint (msg ! 2)) AND 0xFF"
  by (cases "length msg = 4") (auto simp add: parse_message_def checksum_slice Let_def)

lemma parse_message_Some:
  assumes "length msg = 4" "uint (msg ! 3) = (uint (msg ! 1) + uint (msg ! 2)) AND 0xFF"
  shows "parse_message msg =
        Some (drop_bit 6 (uint (msg ! 1)) AND 0x03,
              push_bit 8 (uint (msg ! 1) AND 0x3F) OR uint (msg ! 2),
              push_bit 12 (uint (msg ! 1) AND 0x0F) OR push_bit 4 (uint (msg ! 2)))"
  using assms by (simp only: parse_message_def checksum_slice Let_def uint_byte_and_255) simp

text \<open>
  C1.  The round trip of the TSET write-request for 21.5 does not get as far as decoding:
  the fixed-point value is 215, the id/kind byte is 64, and \<open>(64 << 8) | 0 = 16384\<close> is
  not a byte, so \<open>bytes([...])\<close> raises \<open>ValueError\<close> inside \<open>_create_message\<close>.
\<close>

theorem tset_request_encoding_raises:
  "temp_value 21.5 = 215 \<and> create_message WRITE_DATA TSET (temp_value 21.5) = Inl ValueError"
  by (simp add: create_message_def WRITE_DATA_def TSET_def temp_value_def py_int_def
      struct_pack_H_def bytes_of_def)

text \<open>
  C2.  Encoding does not produce a frame for every kind, identifier and value: the
  read-request for TBOILER with value 0 has \<open>lsb_data = (25 << 8) | 0 = 6400\<close>, and the
  construction of the frame raises \<open>ValueError\<close>.
\<close>

theorem tboiler_request_encoding_raises:
  "create_message READ_DATA TBOILER 0 = Inl ValueError"
  by (simp add: create_message_def READ_DATA_def TBOILER_def struct_pack_H_def bytes_of_def)

text \<open>
  C4.  Decoding returns \<open>None\<close> exactly when the frame is not 4 bytes long or its byte 3
  differs from \<open>(byte1 + byte2) & 0xFF\<close>; every other frame decodes to the kind
  \<open>(byte1 >> 6) & 0x03\<close>, the identifier \<open>((byte1 & 0x3F) << 8) | byte2\<close> and the value
  \<open>((byte1 & 0x0F) << 12) | (byte2 << 4)\<close>.
\<close>

theorem parse_message_spec:
  "(parse_message msg = None \<longleftrightarrow>
      length msg \<noteq> 4 \<or> uint (msg ! 3) \<noteq> (uint (msg ! 1) + uint (msg ! 2)) AND 0xFF) \<and>
   (length msg = 4 \<and> uint (msg ! 3) = (uint (msg ! 1) + uint (msg ! 2)) AND 0xFF \<longrightarrow>
      parse_message msg =
        Some (drop_bit 6 (uint (msg ! 1)) AND 0x03,
              push_bit 8 (uint (msg ! 1) AND 0x3F) OR uint (msg ! 2),
              push_bit 12 (uint (msg ! 1) AND 0x0F) OR push_bit 4 (uint (msg ! 2))))"
  using parse_message_None_iff [of msg] parse_message_Some [of msg] by blast

theorem parse_message_spec_witness:
  "parse_message [0x00, 0x00, 0xD7, 0xD7] = Some (0, 215, 3440) \<and>
   parse_message [0x00, 0x00, 0xD7, 0xD8] = None \<and>
   parse_message [0x00, 0x00, 0xD7] = None"
  using parse_message_spec [of "[0x00, 0x00, 0xD7, 0xD7]"]
        parse_message_spec [of "[0x00, 0x00, 0xD7, 0xD8]"]
        parse_message_spec [of "[0x00, 0x00, 0xD7]"]
  by simp


lemma parse_message_value_form:
  assumes "parse_message msg = Some (k, i, v)"
  shows "v = push_bit 4 (push_bit 8 (uint (msg ! 1) AND 0x0F) OR uint (msg ! 2))"
proof -
  from assms have "parse_message msg \<noteq> None" by simp
  then have "length msg = 4" "uint (msg ! 3) = (uint (msg ! 1) + uint (msg ! 2)) AND 0xFF"
    by (simp_all add: parse_message_None_iff)
  from parse_message_Some [OF this] assms
  have "v = push_bit 12 (uint (msg ! 1) AND 0x0F) OR push_bit 4 (uint (msg ! 2))" by simp
  then show ?thesis by (simp add: push_bit_or push_bit_push_bit)
qed

lemma packed_nibble_byte_range:
  "0 \<le> push_bit 8 (uint (a :: byte) AND 0x0F) OR uint (b :: byte) \<and>
   push_bit 8 (uint a AND 0x0F) OR uint b \<le> 4095"
proof -
  let ?w = "push_bit 8 (uint a AND 0x0F) OR uint b"
  have "uint a AND 0x0F = take_bit 4 (uint a)"
    by (simp add: take_bit_eq_mask mask_eq_exp_minus_1)
  then have w: "?w = push_bit 8 (take_bit 4 (uint a)) OR uint b" by simp
  have "0 \<le> ?w" by (simp add: w)
  moreover have "?w < 2 ^ 12"
    unfolding w using uint_bounded [of b] take_bit_int_less_exp [of 4 "uint a"]
    by (intro OR_upper) (simp_all add: push_bit_eq_mult)
  ultimately show ?thesis by simp
qed

lemma decoded_value_bounds:
  assumes "parse_message msg = Some (k, i, v)"
  shows "v AND 0x0F = 0 \<and> 0 \<le> v \<and> v \<le> 0xFFF0 \<and> 0 \<le> recover_temp v \<and> recover_temp v \<le> 409.5"
proof -
  define w where "w = push_bit 8 (uint (msg ! 1) AND 0x0F) OR uint (msg ! 2)"
  have v: "v = push_bit 4 w"
    using parse_message_value_form [OF assms] by (simp add: w_def)
  have w: "0 \<le> w" "w \<le> 4095"
    using packed_nibble_byte_range [of "msg ! 1" "msg ! 2"] by (simp_all add: w_def)
  have "v AND 0x0F = take_bit 4 (push_bit 4 w)"
    by (simp add: v take_bit_eq_mask mask_eq_exp_minus_1)
  then have low: "v AND 0x0F = 0" by (simp add: take_bit_push_bit)
  have shifted: "drop_bit 4 v = w" by (simp add: v drop_bit_push_bit)
  have range: "0 \<le> v" "v \<le> 0xFFF0" using w by (simp_all add: v push_bit_eq_mult)
  have "0 \<le> recover_temp v" "recover_temp v \<le> 409.5"
    using w by (simp_all add: recover_temp_def shifted)
  with low range show ?thesis by simp
qed

lemma get_boiler_temperature_bounds:
  assumes "get_boiler_temperature self = (Inr (Some t), self')"
  shows "0 \<le> t \<and> t \<le> 409.5"
  using assms decoded_value_bounds
  by (fastforce simp add: get_boiler_temperature_def Let_def
      split: option.splits if_splits sum.splits prod.splits)

text \<open>
  C10.  Whenever decoding succeeds, the data value has its low four bits clear and lies
  between 0 and \<open>0xFFF0\<close>, so the temperature recovered from it, \<open>(data_value >> 4) / 10.0\<close>,
  lies between 0 and 409.5; hence \<open>get_boiler_temperature\<close> never returns a negative
  temperature.  The bound on the method's result follows from the bound on the decoded
  value alone, whatever the request and the reply are.
\<close>

theorem decoded_value_range:
  "(\<forall>k i v. parse_message msg = Some (k, i, v) \<longrightarrow>
      v AND 0x0F = 0 \<and> 0 \<le> v \<and> v \<le> 0xFFF0 \<and>
      0 \<le> recover_temp v \<and> recover_temp v \<le> 409.5) \<and>
   (\<forall>t self'. get_boiler_temperature self = (Inr (Some t), self') \<longrightarrow> 0 \<le> t \<and> t \<le> 409.5)"
  using decoded_value_bounds get_boiler_temperature_bounds by blast

theorem decoded_value_range_witness:
  "parse_message [0x00, 0xFF, 0xFF, 0xFE] = Some (3, 16383, 0xFFF0) \<and>
   0xFFF0 AND 0x0F = (0 :: int) \<and> recover_temp 0xFFF0 = 409.5 \<and>
   0 \<le> recover_temp 0xFFF0 \<and> recover_temp 0xFFF0 \<le> 409.5"
proof -
  have p: "parse_message [0x00, 0xFF, 0xFF, 0xFE] = Some (3, 16383, 0xFFF0)"
    by (simp add: parse_message_def calculate_checksum_def slice_1_3_def)
  have r: "recover_temp 0xFFF0 = 409.5" by (simp add: recover_temp_def)
  from decoded_value_range [of "[0x00, 0xFF, 0xFF, 0xFE]"] p
  have "0xFFF0 AND 0x0F = (0 :: int) \<and> 0 \<le> recover_temp 0xFFF0 \<and> recover_temp 0xFFF0 \<le> 409.5"
    by blast
  with p r show ?thesis by simp
qed



section \<open>Properties of the serial link\<close>

lemma temp_value_range: "0 \<le> temp_value t \<and> temp_value t \<le> 65535"
proof -
  have "temp_value t = take_bit 16 (py_int (t * 10))"
    by (simp add: temp_value_def take_bit_eq_mask mask_eq_exp_minus_1)
  then show ?thesis
    using take_bit_int_less_exp [of 16 "py_int (t * 10)"] by simp
qed

lemma tset_request_raises:
  assumes "0 \<le> v" "v \<le> 65535"
  shows "create_message WRITE_DATA TSET v = Inl ValueError"
proof -
  have "256 \<le> push_bit 8 (64 :: int)" by simp
  also have "\<dots> \<le> push_bit 8 64 OR uint (word_of_int (v div 256) :: byte)"
    by (rule or_greater_eq) simp
  finally have "\<not> push_bit 8 (64 :: int) OR uint (word_of_int (v div 256) :: byte) < 256"
    by simp
  then show ?thesis using assms
    by (simp add: create_message_def WRITE_DATA_def TSET_def struct_pack_H_def bytes_of_def)
qed

lemma set_target_temperature_raises:
  assumes "serial self = Some s" "is_open s"
  shows "set_target_temperature t self = (Inl ValueError, self)"
  using assms temp_value_range [of t]
  by (simp add: set_target_temperature_def tset_request_raises)

text \<open>
  C9.  On a connected link with an open port, \<open>set_control_temperature\<close> does not carry
  out the exchange: encoding the TSET request raises \<open>ValueError\<close> before anything is
  written, whatever reply is waiting.  Here the waiting reply is a valid frame, the call
  raises, and the port is left as it was (nothing written, nothing read).
\<close>

theorem connected_set_temperature_raises:
  "parse_message [0x00, 0x00, 0xD7, 0xD7] \<noteq> None \<and>
   set_control_temperature 21.5 19.0
     \<lparr>protocol = \<lparr>serial_port = ''/dev/ttyUSB0'', baudrate = 9600,
        serial = Some \<lparr>is_open = True, written = [], incoming = [0x00, 0x00, 0xD7, 0xD7]\<rparr>\<rparr>,
      connected = True\<rparr>
   = (Inl ValueError,
      \<lparr>protocol = \<lparr>serial_port = ''/dev/ttyUSB0'', baudrate = 9600,
        serial = Some \<lparr>is_open = True, written = [], incoming = [0x00, 0x00, 0xD7, 0xD7]\<rparr>\<rparr>,
      connected = True\<rparr>)"
  by (simp add: set_control_temperature_def set_target_temperature_raises
      parse_message_def calculate_checksum_def slice_1_3_def)


section \<open>Properties of the controller\<close>

lemma pid_ok_init: "pid_ok (PIDController_init p i d sp limits)"
  by (simp add: pid_ok_def PIDController_init_def)

lemma pid_ok_set_setpoint: "pid_ok (set_setpoint sp self) = pid_ok self"
  by (simp add: pid_ok_def set_setpoint_def)

lemma pid_ok_reset: "pid_ok (reset self)"
  by (simp add: pid_ok_def reset_def)

lemma pid_ok_set_tunings: "pid_ok (set_tunings p i d self) = pid_ok self"
  by (simp add: pid_ok_def set_tunings_def)

lemma clamp_output_cong:
  "output_limits a = output_limits b \<Longrightarrow> clamp_output a y = clamp_output b y"
  by (simp add: clamp_output_def)

lemma clamp_output_bounds:
  assumes "fst (output_limits self) \<le> snd (output_limits self)"
  shows "fst (output_limits self) \<le> clamp_output self y \<and>
         clamp_output self y \<le> snd (output_limits self)"
  using assms by (simp add: clamp_output_def)

text \<open>What \<open>update\<close> leaves alone, and that it keeps the invariant.\<close>

lemma update_frame:
  assumes "update now x self = (r, self')"
  shows "kp self' = kp self \<and> ki self' = ki self \<and> kd self' = kd self \<and>
         setpoint self' = setpoint self \<and> output_limits self' = output_limits self"
  using assms
  by (auto simp add: update_def Let_def split: option.splits if_splits)

lemma update_pid_ok:
  assumes "pid_ok self" "update now x self = (r, self')"
  shows "pid_ok self'"
  using assms
  by (auto simp add: update_def pid_ok_def Let_def split: option.splits if_splits)

lemma update_returns:
  assumes "pid_ok self"
  shows "\<exists>y self'. update now x self = (Inr y, self') \<and> (\<exists>z. y = clamp_output self z)"
proof (cases "last_time self")
  case None
  then show ?thesis by (auto simp add: update_def Let_def)
next
  case (Some lt)
  with assms obtain le where "last_error self = Some le" by (auto simp add: pid_ok_def)
  with Some show ?thesis
    by (auto simp add: update_def Let_def clamp_output_def)
qed

lemma update_proportional:
  assumes "ki self = 0" "kd self = 0" "pid_ok self"
  shows "fst (update now x self) = Inr (clamp_output self (kp self * (setpoint self - x)))"
proof (cases "last_time self")
  case None
  then show ?thesis by (simp add: update_def Let_def)
next
  case (Some lt)
  with assms obtain le where "last_error self = Some le" by (auto simp add: pid_ok_def)
  with Some assms show ?thesis
    by (simp add: update_def Let_def clamp_output_def)
qed

text \<open>
  C5.  For a controller with \<open>ki = 0\<close> and \<open>kd = 0\<close>, every call of \<open>update\<close> in a
  sequence of calls returns exactly \<open>clamp(kp * (setpoint - measurement))\<close>: no call
  raises, and the outputs are these values in order, whatever the clock readings are
  (first call, \<open>dt \<le> 0\<close> and \<open>dt > 0\<close> alike).
\<close>

theorem updates_proportional_only:
  assumes "ki self = 0" "kd self = 0" "pid_ok self"
  shows "fst (updates calls self) =
           Inr (map (\<lambda>(now, x). clamp_output self (kp self * (setpoint self - x))) calls)"
  using assms
proof (induction calls arbitrary: self)
  case Nil
  then show ?case by simp
next
  case (Cons call calls)
  obtain now x where call: "call = (now, x)" by (cases call)
  obtain r self' where u: "update now x self = (r, self')" by (cases "update now x self")
  have r: "r = Inr (clamp_output self (kp self * (setpoint self - x)))"
    using update_proportional [OF Cons.prems, of now x] u by simp
  have fr: "kp self' = kp self" "ki self' = ki self" "kd self' = kd self"
      "setpoint self' = setpoint self" "output_limits self' = output_limits self"
    using update_frame [OF u] by simp_all
  have ok: "pid_ok self'" using update_pid_ok [OF Cons.prems(3) u] .
  have "fst (updates calls self') =
          Inr (map (\<lambda>(now, x). clamp_output self' (kp self' * (setpoint self' - x))) calls)"
    using Cons.IH [of self'] Cons.prems fr ok by simp
  then have rest: "fst (updates calls self') =
          Inr (map (\<lambda>(now, x). clamp_output self (kp self * (setpoint self - x))) calls)"
    by (simp add: fr clamp_output_def)
  obtain rs self'' where us: "updates calls self' = (rs, self'')" by (cases "updates calls self'")
  with rest have "rs = Inr (map (\<lambda>(now, x). clamp_output self (kp self * (setpoint self - x))) calls)"
    by simp
  then show ?case by (simp add: call u r us)
qed

theorem updates_proportional_only_witness:
  "fst (updates [(10, -5), (11, -3), (11, -200), (9, 4), (12, -50)]
          (PIDController_init 2 0 0 0 (0, 100))) = Inr [10, 6, 100, 0, 100]"
proof -
  have "ki (PIDController_init 2 0 0 0 (0, 100)) = 0" "kd (PIDController_init 2 0 0 0 (0, 100)) = 0"
    by (simp_all add: PIDController_init_def)
  from updates_proportional_only [OF this pid_ok_init, of "[(10, -5), (11, -3), (11, -200), (9, 4), (12, -50)]"]
  show ?thesis by (simp add: PIDController_init_def clamp_output_def)
qed

text \<open>
  C8.  \<open>set_setpoint\<close> sets the setpoint to the given value and the integral to zero,
  whatever the integral was, and leaves the gains, the last error, the last timestamp and
  the output limits unchanged.
\<close>

theorem set_setpoint_spec:
  "setpoint (set_setpoint v self) = v \<and> integral (set_setpoint v self) = 0 \<and>
   kp (set_setpoint v self) = kp self \<and> ki (set_setpoint v self) = ki self \<and>
   kd (set_setpoint v self) = kd self \<and> last_error (set_setpoint v self) = last_error self \<and>
   last_time (set_setpoint v self) = last_time self \<and>
   output_limits (set_setpoint v self) = output_limits self"
  by (simp add: set_setpoint_def)


section \<open>Properties of room selection\<close>

lemma max_key_from_ge: "f best \<le> f (max_key_from f best xs)"
proof (induction xs arbitrary: best)
  case Nil
  show ?case by simp
next
  case (Cons x xs)
  show ?case using Cons.IH [of x] Cons.IH [of best] by (cases "f x > f best") simp_all
qed

lemma max_key_from_split:
  "\<exists>pre post. best # xs = pre @ max_key_from f best xs # post \<and>
     (\<forall>x\<in>set pre. f x < f (max_key_from f best xs)) \<and>
     (\<forall>x\<in>set post. f x \<le> f (max_key_from f best xs))"
proof (induction xs arbitrary: best)
  case Nil
  show ?case by (intro exI [of _ "[]"]) simp
next
  case (Cons x xs)
  show ?case
  proof (cases "f x > f best")
    case True
    from Cons.IH [of x] obtain pre post where
      s: "x # xs = pre @ max_key_from f x xs # post"
      and lt: "\<forall>y\<in>set pre. f y < f (max_key_from f x xs)"
      and le: "\<forall>y\<in>set post. f y \<le> f (max_key_from f x xs)"
      by blast
    have "f x \<le> f (max_key_from f x xs)" by (rule max_key_from_ge)
    with True have bm: "f best < f (max_key_from f x xs)" by simp
    define m where "m = max_key_from f x xs"
    have "best # x # xs = (best # pre) @ m # post" using s by (simp add: m_def)
    moreover have "\<forall>y\<in>set (best # pre). f y < f m" using bm lt by (simp add: m_def)
    moreover have "\<forall>y\<in>set post. f y \<le> f m" using le by (simp add: m_def)
    ultimately have "\<exists>pre post. best # x # xs = pre @ m # post \<and>
          (\<forall>y\<in>set pre. f y < f m) \<and> (\<forall>y\<in>set post. f y \<le> f m)"
      by blast
    then show ?thesis using True by (simp add: m_def)
  next
    case False
    define m where "m = max_key_from f best xs"
    from Cons.IH [of best] obtain pre post where
      s: "best # xs = pre @ m # post"
      and lt: "\<forall>y\<in>set pre. f y < f m"
      and le: "\<forall>y\<in>set post. f y \<le> f m"
      unfolding m_def by blast
    have goal: "max_key_from f best (x # xs) = m" using False by (simp add: m_def)
    have "\<exists>pre post. best # x # xs = pre @ m # post \<and>
          (\<forall>y\<in>set pre. f y < f m) \<and> (\<forall>y\<in>set post. f y \<le> f m)"
    proof (cases pre)
      case Nil
      with s have b: "m = best" and px: "post = xs" by simp_all
      have "best # x # xs = [] @ m # (x # xs)" by (simp add: b)
      moreover have "\<forall>y\<in>set []. f y < f m" by simp
      moreover have "\<forall>y\<in>set (x # xs). f y \<le> f m" using le False by (simp add: b px)
      ultimately show ?thesis by (intro exI [of _ "[]"] exI [of _ "x # xs"] conjI)
    next
      case (Cons p ps)
      with s have p: "p = best" and xs: "xs = ps @ m # post" by simp_all
      have bm: "f best < f m" using lt Cons p by simp
      with False have xm: "f x < f m" by simp
      have ps: "\<forall>y\<in>set ps. f y < f m" using lt Cons by simp
      have "best # x # xs = (best # x # ps) @ m # post" using xs by simp
      moreover have "\<forall>y\<in>set (best # x # ps). f y < f m" using bm xm ps by simp
      ultimately show ?thesis using le by blast
    qed
    then show ?thesis by (simp only: goal)
  qed
qed

lemma filter_eq_append_ConsD:
  "filter P ys = pre @ r # post \<Longrightarrow>
   \<exists>us vs. ys = us @ r # vs \<and> filter P us = pre \<and> P r \<and> filter P vs = post"
proof (induction pre arbitrary: ys)
  case Nil
  then have "filter P ys = r # post" by simp
  from filter_eq_ConsD [OF this] obtain us vs where
    "ys = us @ r # vs" "\<forall>u\<in>set us. \<not> P u" "P r" "post = filter P vs" by blast
  then have "ys = us @ r # vs \<and> filter P us = [] \<and> P r \<and> filter P vs = post" by simp
  then show ?case by blast
next
  case (Cons p pre)
  then have "filter P ys = p # (pre @ r # post)" by simp
  from filter_eq_ConsD [OF this] obtain us vs where
    ys: "ys = us @ p # vs" and us: "\<forall>u\<in>set us. \<not> P u" and p: "P p"
    and vs: "pre @ r # post = filter P vs" by blast
  from Cons.IH [of vs] vs obtain us' vs' where
    v: "vs = us' @ r # vs'" "filter P us' = pre" "P r" "filter P vs' = post" by metis
  have "ys = (us @ p # us') @ r # vs'" using ys v by simp
  moreover have "filter P (us @ p # us') = p # pre" using us p v by simp
  ultimately show ?case using v by blast
qed

lemma needs_heating_iff:
  "needs_heating room \<longleftrightarrow> (\<exists>c. current_temp room = Some c \<and> c < target_temp room)"
  by (simp add: needs_heating_def split: option.splits)

lemma rooms_needing_heat_filter:
  "filter (\<lambda>room. needs_heating room \<and> current_temp room \<noteq> None) rs = filter needs_heating rs"
  by (rule filter_cong) (auto simp add: needs_heating_iff)

lemma selection_unfold:
  "get_room_with_highest_difference self =
     (case filter needs_heating (rooms self) of
        [] \<Rightarrow> None
      | r # rs \<Rightarrow> Some (max_key_from get_temperature_difference r rs))"
  unfolding get_room_with_highest_difference_def Let_def rooms_needing_heat_filter
  by (cases "rooms self") simp_all

lemma selection_None_iff:
  "get_room_with_highest_difference self = None \<longleftrightarrow>
     (\<forall>room\<in>set (rooms self). \<not> needs_heating room)"
proof -
  have "get_room_with_highest_difference self = None \<longleftrightarrow>
          filter needs_heating (rooms self) = []"
    by (simp add: selection_unfold split: list.splits)
  then show ?thesis by (simp add: filter_empty_conv)
qed

lemma selection_Some:
  assumes "get_room_with_highest_difference self = Some r"
  shows "\<exists>pre post. rooms self = pre @ r # post \<and> needs_heating r \<and>
           (\<forall>x\<in>set pre. needs_heating x \<longrightarrow>
              get_temperature_difference x < get_temperature_difference r) \<and>
           (\<forall>x\<in>set post. needs_heating x \<longrightarrow>
              get_temperature_difference x \<le> get_temperature_difference r)"
proof -
  let ?f = get_temperature_difference
  from assms obtain b xs where
    fl: "filter needs_heating (rooms self) = b # xs" and r: "r = max_key_from ?f b xs"
    by (auto simp add: selection_unfold split: list.splits)
  from max_key_from_split [of b xs ?f] r obtain pre post where
    sp: "b # xs = pre @ r # post" and lt: "\<forall>x\<in>set pre. ?f x < ?f r"
    and le: "\<forall>x\<in>set post. ?f x \<le> ?f r" by auto
  from fl sp have "filter needs_heating (rooms self) = pre @ r # post" by simp
  from filter_eq_append_ConsD [OF this] obtain us vs where
    d: "rooms self = us @ r # vs" "filter needs_heating us = pre" "needs_heating r"
       "filter needs_heating vs = post" by blast
  have "\<forall>x\<in>set us. needs_heating x \<longrightarrow> ?f x < ?f r"
    using lt d(2) by auto
  moreover have "\<forall>x\<in>set vs. needs_heating x \<longrightarrow> ?f x \<le> ?f r"
    using le d(4) by auto
  ultimately show ?thesis using d by blast
qed

lemma control_temperatures_selection:
  "get_control_temperatures self =
     (case get_room_with_highest_difference self of
        None \<Rightarrow> None
      | Some room \<Rightarrow> map_option (\<lambda>c. (target_temp room, c)) (current_temp room))"
  by (simp add: get_control_temperatures_def split: option.splits)

text \<open>
  C3.  Selection returns none exactly when no room needs heating.  When it returns a room,
  that room stands at some position \<open>i\<close> of the configured list, needs heating (its current
  temperature is present and strictly below its target), its difference
  \<open>|target - current|\<close> is at least that of every room that needs heating and strictly
  greater than that of every such room at an earlier position, and
  \<open>get_control_temperatures\<close> returns its (target, current) pair; when selection returns
  none, so does \<open>get_control_temperatures\<close>.
\<close>

theorem selection_spec:
  "(get_room_with_highest_difference self = None \<longleftrightarrow>
      (\<forall>room\<in>set (rooms self). \<not> needs_heating room)) \<and>
   (\<forall>r. get_room_with_highest_difference self = Some r \<longrightarrow>
      (\<exists>i<length (rooms self). rooms self ! i = r \<and>
         (\<exists>c. current_temp r = Some c \<and> c < target_temp r \<and>
              get_temperature_difference r = \<bar>target_temp r - c\<bar> \<and>
              get_control_temperatures self = Some (target_temp r, c)) \<and>
         (\<forall>j<length (rooms self). needs_heating (rooms self ! j) \<longrightarrow>
            get_temperature_difference (rooms self ! j) \<le> get_temperature_difference r) \<and>
         (\<forall>j<i. needs_heating (rooms self ! j) \<longrightarrow>
            get_temperature_difference (rooms self ! j) < get_temperature_difference r))) \<and>
   (get_room_with_highest_difference self = None \<longrightarrow> get_control_temperatures self = None)"
proof (intro conjI allI impI)
  show "get_room_with_highest_difference self = None \<longleftrightarrow>
      (\<forall>room\<in>set (rooms self). \<not> needs_heating room)"
    by (rule selection_None_iff)
next
  assume "get_room_with_highest_difference self = None"
  then show "get_control_temperatures self = None"
    by (simp add: get_control_temperatures_def)
next
  fix r
  let ?f = get_temperature_difference
  assume sel: "get_room_with_highest_difference self = Some r"
  from selection_Some [OF sel] obtain pre post where
    d: "rooms self = pre @ r # post" and nh: "needs_heating r"
    and lt: "\<forall>x\<in>set pre. needs_heating x \<longrightarrow> ?f x < ?f r"
    and le: "\<forall>x\<in>set post. needs_heating x \<longrightarrow> ?f x \<le> ?f r" by blast
  from nh obtain c where c: "current_temp r = Some c" "c < target_temp r"
    by (auto simp add: needs_heating_iff)
  have i: "length pre < length (rooms self)" "rooms self ! length pre = r"
    by (simp_all add: d)
  have own: "\<exists>c. current_temp r = Some c \<and> c < target_temp r \<and>
              ?f r = \<bar>target_temp r - c\<bar> \<and>
              get_control_temperatures self = Some (target_temp r, c)"
    using c sel by (simp add: get_temperature_difference_def get_control_temperatures_def)
  have all: "\<forall>j<length (rooms self). needs_heating (rooms self ! j) \<longrightarrow>
            ?f (rooms self ! j) \<le> ?f r"
  proof (intro allI impI)
    fix j assume j: "j < length (rooms self)" and n: "needs_heating (rooms self ! j)"
    have "rooms self ! j \<in> set (rooms self)" using j by simp
    then have "rooms self ! j \<in> set pre \<or> rooms self ! j = r \<or> rooms self ! j \<in> set post"
      by (auto simp add: d)
    then show "?f (rooms self ! j) \<le> ?f r" using lt le n by fastforce
  qed
  have before: "\<forall>j<length pre. needs_heating (rooms self ! j) \<longrightarrow> ?f (rooms self ! j) < ?f r"
  proof (intro allI impI)
    fix j assume j: "j < length pre" and n: "needs_heating (rooms self ! j)"
    have "rooms self ! j = pre ! j" using j by (simp add: d nth_append)
    then show "?f (rooms self ! j) < ?f r" using lt n j by simp
  qed
  show "\<exists>i<length (rooms self). rooms self ! i = r \<and>
         (\<exists>c. current_temp r = Some c \<and> c < target_temp r \<and>
              ?f r = \<bar>target_temp r - c\<bar> \<and>
              get_control_temperatures self = Some (target_temp r, c)) \<and>
         (\<forall>j<length (rooms self). needs_heating (rooms self ! j) \<longrightarrow>
            ?f (rooms self ! j) \<le> ?f r) \<and>
         (\<forall>j<i. needs_heating (rooms self ! j) \<longrightarrow> ?f (rooms self ! j) < ?f r)"
    using i own all before by blast
qed

theorem selection_spec_witness:
  "get_room_with_highest_difference
     \<lparr>rooms = [
        \<lparr>room_name = ''Bath'', target_temp = 23, current_temp_sensor = ''s0'', hrv_entity = [],
         hrv_valves = [], current_temp = None\<rparr>,
        \<lparr>room_name = ''Attic'', target_temp = 18, current_temp_sensor = ''s1'', hrv_entity = [],
         hrv_valves = [], current_temp = Some 25\<rparr>,
        \<lparr>room_name = ''Living'', target_temp = 21, current_temp_sensor = ''s2'', hrv_entity = [],
         hrv_valves = [], current_temp = Some 19\<rparr>,
        \<lparr>room_name = ''Bedroom'', target_temp = 20, current_temp_sensor = ''s3'', hrv_entity = [],
         hrv_valves = [], current_temp = Some 19.5\<rparr>,
        \<lparr>room_name = ''Study'', target_temp = 22, current_temp_sensor = ''s4'', hrv_entity = [],
         hrv_valves = [], current_temp = Some 20\<rparr>]\<rparr>
   = Some \<lparr>room_name = ''Living'', target_temp = 21, current_temp_sensor = ''s2'', hrv_entity = [],
         hrv_valves = [], current_temp = Some 19\<rparr> \<and>
   get_control_temperatures
     \<lparr>rooms = [
        \<lparr>room_name = ''Bath'', target_temp = 23, current_temp_sensor = ''s0'', hrv_entity = [],
         hrv_valves = [], current_temp = None\<rparr>,
        \<lparr>room_name = ''Attic'', target_temp = 18, current_temp_sensor = ''s1'', hrv_entity = [],
         hrv_valves = [], current_temp = Some 25\<rparr>,
        \<lparr>room_name = ''Living'', target_temp = 21, current_temp_sensor = ''s2'', hrv_entity = [],
         hrv_valves = [], current_temp = Some 19\<rparr>,
        \<lparr>room_name = ''Bedroom'', target_temp = 20, current_temp_sensor = ''s3'', hrv_entity = [],
         hrv_valves = [], current_temp = Some 19.5\<rparr>,
        \<lparr>room_name = ''Study'', target_temp = 22, current_temp_sensor = ''s4'', hrv_entity = [],
         hrv_valves = [], current_temp = Some 20\<rparr>]\<rparr>
   = Some (21, 19)"
  (is "get_room_with_highest_difference ?M = Some ?R \<and> _")
proof -
  have sel: "get_room_with_highest_difference ?M = Some ?R"
    by (simp add: get_room_with_highest_difference_def needs_heating_def
        get_temperature_difference_def)
  from selection_spec [of ?M] sel
  obtain c where "current_temp ?R = Some c"
    "get_control_temperatures ?M = Some (target_temp ?R, c)"
    by blast
  then have "get_control_temperatures ?M = Some (21, 19)" by simp
  with sel show ?thesis by simp
qed

lemma selected_has_temperature:
  assumes "get_room_with_highest_difference self = Some room"
  shows "current_temp room \<noteq> None"
  using selection_Some [OF assms] by (auto simp add: needs_heating_iff)

text \<open>
  C7.  A room whose current temperature is absent is never the result of selection, and
  \<open>calculate_hrv_positions\<close> returns it as it was: every valve keeps its position and its
  controller state, and the clock is not read.
\<close>

theorem absent_temperature_room_untouched:
  assumes "current_temp room = None"
  shows "(\<forall>self. get_room_with_highest_difference self \<noteq> Some room) \<and>
         calculate_hrv_positions clock room k = (None, room, k)"
proof
  show "\<forall>self. get_room_with_highest_difference self \<noteq> Some room"
    using assms selected_has_temperature by blast
  show "calculate_hrv_positions clock room k = (None, room, k)"
    using assms by (simp add: calculate_hrv_positions_def)
qed

theorem absent_temperature_room_untouched_witness:
  "get_room_with_highest_difference
     \<lparr>rooms = [\<lparr>room_name = ''Bath'', target_temp = 23, current_temp_sensor = ''s0'',
         hrv_entity = [], hrv_valves = [HRVValve_init ''v'' ''e'' 1 0.1 0.05\<lparr>current_position := 40\<rparr>],
         current_temp = None\<rparr>]\<rparr>
     \<noteq> Some \<lparr>room_name = ''Bath'', target_temp = 23, current_temp_sensor = ''s0'',
         hrv_entity = [], hrv_valves = [HRVValve_init ''v'' ''e'' 1 0.1 0.05\<lparr>current_position := 40\<rparr>],
         current_temp = None\<rparr> \<and>
   calculate_hrv_positions (\<lambda>k. real k)
     \<lparr>room_name = ''Bath'', target_temp = 23, current_temp_sensor = ''s0'',
         hrv_entity = [], hrv_valves = [HRVValve_init ''v'' ''e'' 1 0.1 0.05\<lparr>current_position := 40\<rparr>],
         current_temp = None\<rparr> 0
   = (None, \<lparr>room_name = ''Bath'', target_temp = 23, current_temp_sensor = ''s0'',
         hrv_entity = [], hrv_valves = [HRVValve_init ''v'' ''e'' 1 0.1 0.05\<lparr>current_position := 40\<rparr>],
         current_temp = None\<rparr>, 0)"
  (is "get_room_with_highest_difference ?M \<noteq> Some ?R \<and> _")
proof -
  have "current_temp ?R = None" by simp
  from absent_temperature_room_untouched [OF this, of "\<lambda>k. real k" 0]
  show ?thesis by blast
qed


section \<open>Bounds on controller outputs and valve positions\<close>

lemma update_within_limits:
  assumes "pid_ok self" "fst (output_limits self) \<le> snd (output_limits self)"
  shows "\<exists>y self'. update now x self = (Inr y, self') \<and> pid_ok self' \<and>
           fst (output_limits self) \<le> y \<and> y \<le> snd (output_limits self)"
proof -
  from update_returns [OF assms(1), of now x] obtain y self' z where
    u: "update now x self = (Inr y, self')" and y: "y = clamp_output self z" by blast
  have "pid_ok self'" using update_pid_ok [OF assms(1) u] .
  moreover have "fst (output_limits self) \<le> y \<and> y \<le> snd (output_limits self)"
    using clamp_output_bounds [OF assms(2), of z] y by simp
  ultimately show ?thesis using u by blast
qed

lemma valve_ok_init: "valve_ok (HRVValve_init n e p i d)"
  by (simp add: valve_ok_def HRVValve_init_def pid_ok_init)

lemma hrv_loop_ok:
  assumes "list_all (\<lambda>v. pid_ok (pid_controller v)) valves"
  shows "\<exists>valves' k'. hrv_loop clock error valves k = (None, valves', k') \<and>
           list_all valve_ok valves'"
  using assms
proof (induction valves arbitrary: k)
  case Nil
  show ?case by simp
next
  case (Cons valve rest)
  let ?pid1 = "set_setpoint 0 (pid_controller valve)"
  have "pid_ok ?pid1" using Cons.prems by (simp add: pid_ok_set_setpoint)
  from update_returns [OF this, of "clock k" "- error"] obtain y pid2 where
    u: "update (clock k) (- error) ?pid1 = (Inr y, pid2)" by blast
  have ok2: "pid_ok pid2" using update_pid_ok [OF \<open>pid_ok ?pid1\<close> u] .
  from Cons.IH [of "Suc k"] Cons.prems obtain rest' k' where
    r: "hrv_loop clock error rest (Suc k) = (None, rest', k')" and ok: "list_all valve_ok rest'"
    by auto
  let ?valve' = "valve\<lparr>pid_controller := pid2, current_position := max 0 (min 100 y)\<rparr>"
  have "valve_ok ?valve'" using ok2 by (simp add: valve_ok_def)
  moreover have "hrv_loop clock error (valve # rest) k = (None, ?valve' # rest', k')"
    using u r by (simp add: Let_def)
  ultimately show ?case using ok by simp
qed

lemma valve_ok_pid: "list_all valve_ok vs \<Longrightarrow> list_all (\<lambda>v. pid_ok (pid_controller v)) vs"
  by (induction vs) (simp_all add: valve_ok_def)

lemma calculate_hrv_positions_ok:
  assumes "list_all valve_ok (hrv_valves room)"
  shows "\<exists>room' k'. calculate_hrv_positions clock room k = (None, room', k') \<and>
           list_all valve_ok (hrv_valves room')"
proof (cases "current_temp room")
  case None
  then show ?thesis using assms by (simp add: calculate_hrv_positions_def)
next
  case (Some c)
  from hrv_loop_ok [OF valve_ok_pid [OF assms], of clock "target_temp room - c" k]
  obtain valves' k' where
    "hrv_loop clock (target_temp room - c) (hrv_valves room) k = (None, valves', k')"
    "list_all valve_ok valves'" by blast
  then show ?thesis using Some by (simp add: calculate_hrv_positions_def Let_def)
qed

lemma cycles_ok:
  assumes "list_all valve_ok (hrv_valves room)"
  shows "\<exists>room' k'. cycles clock ms room k = (None, room', k') \<and>
           list_all valve_ok (hrv_valves room')"
  using assms
proof (induction ms arbitrary: room k)
  case Nil
  then show ?case by simp
next
  case (Cons m ms)
  define room1 where "room1 = (case m of None \<Rightarrow> room | Some t \<Rightarrow> room\<lparr>current_temp := Some t\<rparr>)"
  have "list_all valve_ok (hrv_valves room1)"
    using Cons.prems by (simp add: room1_def split: option.splits)
  from calculate_hrv_positions_ok [OF this, of clock k] obtain room2 k2 where
    c: "calculate_hrv_positions clock room1 k = (None, room2, k2)"
    and ok: "list_all valve_ok (hrv_valves room2)" by blast
  from Cons.IH [OF ok, of k2] obtain room' k' where
    "cycles clock ms room2 k2 = (None, room', k')" "list_all valve_ok (hrv_valves room')"
    by blast
  then show ?case using c by (simp add: room1_def [symmetric])
qed

text \<open>
  C6.  For every controller whose limits are ordered and whose optional fields are set
  together, and for every measurement and clock reading, \<open>update\<close> returns a value within
  the configured output limits.  And if every valve of a room has its position in
  \<open>[0, 100]\<close> (as a new valve does, at 0), then any number of control cycles on the room,
  with or without new measurements, run without raising and leave every valve's position
  in \<open>[0, 100]\<close>.
\<close>

theorem outputs_within_bounds:
  "(pid_ok self \<and> fst (output_limits self) \<le> snd (output_limits self) \<longrightarrow>
      (\<exists>y self'. update now x self = (Inr y, self') \<and>
         fst (output_limits self) \<le> y \<and> y \<le> snd (output_limits self))) \<and>
   (list_all valve_ok (hrv_valves room) \<longrightarrow>
      (\<exists>room' k'. cycles clock ms room k = (None, room', k') \<and>
         (\<forall>v\<in>set (hrv_valves room'). 0 \<le> current_position v \<and> current_position v \<le> 100)))"
proof (intro conjI impI)
  assume "pid_ok self \<and> fst (output_limits self) \<le> snd (output_limits self)"
  then show "\<exists>y self'. update now x self = (Inr y, self') \<and>
         fst (output_limits self) \<le> y \<and> y \<le> snd (output_limits self)"
    using update_within_limits [of self now x] by blast
next
  assume "list_all valve_ok (hrv_valves room)"
  from cycles_ok [OF this, of clock ms k] obtain room' k' where
    c: "cycles clock ms room k = (None, room', k')" and ok: "list_all valve_ok (hrv_valves room')"
    by blast
  from ok have "\<forall>v\<in>set (hrv_valves room'). 0 \<le> current_position v \<and> current_position v \<le> 100"
    by (simp add: list_all_iff valve_ok_def)
  with c show "\<exists>room' k'. cycles clock ms room k = (None, room', k') \<and>
         (\<forall>v\<in>set (hrv_valves room'). 0 \<le> current_position v \<and> current_position v \<le> 100)"
    by blast
qed

theorem outputs_within_bounds_witness:
  "fst (update 12 (- 200)
         (PIDController_init 1 0.1 0.05 0 (0, 100)
            \<lparr>last_time := Some 10, last_error := Some 5, integral := 3\<rparr>)) = Inr 100 \<and>
   (\<exists>y self'. update 12 (- 200)
         (PIDController_init 1 0.1 0.05 0 (0, 100)
            \<lparr>last_time := Some 10, last_error := Some 5, integral := 3\<rparr>) = (Inr y, self') \<and>
       0 \<le> y \<and> y \<le> 100) \<and>
   (\<exists>room' k'. cycles (\<lambda>k. real k) [Some 19, None, Some 25]
         \<lparr>room_name = ''Living'', target_temp = 21, current_temp_sensor = ''s'',
          hrv_entity = [],
          hrv_valves = [HRVValve_init ''a'' ''ea'' 1 0.1 0.05, HRVValve_init ''b'' ''eb'' 80 0 0],
          current_temp = None\<rparr> 0 = (None, room', k') \<and>
       (\<forall>v\<in>set (hrv_valves room'). 0 \<le> current_position v \<and> current_position v \<le> 100))"
  (is "fst (update 12 (- 200) ?C) = Inr 100 \<and> ?U \<and> ?V")
proof -
  have c: "pid_ok ?C \<and> fst (output_limits ?C) \<le> snd (output_limits ?C)"
    by (simp add: pid_ok_def PIDController_init_def)
  have r: "list_all valve_ok (hrv_valves
         \<lparr>room_name = ''Living'', target_temp = 21, current_temp_sensor = ''s'',
          hrv_entity = [],
          hrv_valves = [HRVValve_init ''a'' ''ea'' 1 0.1 0.05, HRVValve_init ''b'' ''eb'' 80 0 0],
          current_temp = None\<rparr>)"
    by (simp add: valve_ok_init)
  have e: "fst (update 12 (- 200) ?C) = Inr 100"
    by (simp add: update_def PIDController_init_def clamp_output_def Let_def)
  have l: "fst (output_limits ?C) = 0" "snd (output_limits ?C) = 100"
    by (simp_all add: PIDController_init_def)
  from outputs_within_bounds [of ?C 12 "- 200" _ "\<lambda>k. real k" "[Some 19, None, Some 25]" 0] c r
  have "?U \<and> ?V" unfolding l by blast
  with e show ?thesis by blast
qed

end
